theory Spec2Isabelle
  imports Main "HOL-Library.Sublist"
begin

section \<open>Python values as they come out of a JSON document\<close>

text \<open>
  The relay only ever handles values produced by parsing JSON: \<open>None\<close>, booleans,
  integers, floats, strings, lists and dictionaries with string keys.

  \<^item> A float is identified with the text Python prints for it (\<open>repr\<close>), for example
    \<open>''1.5''\<close>; the two zeros are \<open>''0.0''\<close> and \<open>''-0.0''\<close>. The relay only tests a
    float for truth and converts it with \<open>str\<close>, and both are read off that text.
  \<^item> A \<open>char\<close> stands for one code point below 256.
  \<^item> A dictionary is the list of its items in insertion order; keys are distinct in
    every dictionary Python builds, and lookup takes the first item with the key.
\<close>

datatype pyval =
    PNone
  | PBool bool
  | PInt int
  | PFloat string
  | PStr string
  | PList "pyval list"
  | PDict "(string \<times> pyval) list"

text \<open>The exceptions the modelled code can meet. All of them derive from \<open>Exception\<close>.\<close>

datatype py_exn =
    TypeError
  | KeyError
  | IndexError
  | AttributeError
  | ValueError string
  | JSONDecodeError
  | RequestException
  | BadRequest

text \<open>Truth value testing (\<open>not x\<close>, \<open>if x\<close>).\<close>

fun truthy :: "pyval \<Rightarrow> bool" where
  "truthy PNone = False"
| "truthy (PBool b) = b"
| "truthy (PInt n) = (n \<noteq> 0)"
| "truthy (PFloat r) = (r \<noteq> ''0.0'' \<and> r \<noteq> ''-0.0'')"
| "truthy (PStr s) = (s \<noteq> [])"
| "truthy (PList xs) = (xs \<noteq> [])"
| "truthy (PDict kvs) = (kvs \<noteq> [])"

text \<open>\<open>len(x)\<close>: defined on strings, lists and dictionaries, a \<open>TypeError\<close> elsewhere.\<close>

fun py_len :: "pyval \<Rightarrow> py_exn + nat" where
  "py_len (PStr s) = Inr (length s)"
| "py_len (PList xs) = Inr (length xs)"
| "py_len (PDict kvs) = Inr (length kvs)"
| "py_len v = Inl TypeError"

text \<open>
  \<open>x[i]\<close> for an integer \<open>i\<close>. Negative indices count from the end; out of range is an
  \<open>IndexError\<close>. A dictionary parsed from JSON has string keys only, so an integer key
  is a \<open>KeyError\<close>. Everything else is not subscriptable.
\<close>

definition index_of :: "nat \<Rightarrow> int \<Rightarrow> nat option" where
  "index_of n i =
     (let j = (if i < 0 then int n + i else i)
      in if 0 \<le> j \<and> j < int n then Some (nat j) else None)"

fun getitem_int :: "pyval \<Rightarrow> int \<Rightarrow> py_exn + pyval" where
  "getitem_int (PList xs) i =
     (case index_of (length xs) i of None \<Rightarrow> Inl IndexError | Some j \<Rightarrow> Inr (xs ! j))"
| "getitem_int (PStr s) i =
     (case index_of (length s) i of None \<Rightarrow> Inl IndexError | Some j \<Rightarrow> Inr (PStr [s ! j]))"
| "getitem_int (PDict kvs) i = Inl KeyError"
| "getitem_int v i = Inl TypeError"

text \<open>\<open>x[k]\<close> for a string \<open>k\<close>: a dictionary lookup; lists and strings refuse a string index.\<close>

fun getitem_str :: "pyval \<Rightarrow> string \<Rightarrow> py_exn + pyval" where
  "getitem_str (PDict kvs) k = (case map_of kvs k of None \<Rightarrow> Inl KeyError | Some v \<Rightarrow> Inr v)"
| "getitem_str v k = Inl TypeError"

text \<open>
  \<open>k in x\<close> for a string \<open>k\<close>: key membership in a dictionary, element membership in a
  list, substring test in a string, and a \<open>TypeError\<close> on a value that is not iterable.
\<close>

fun py_contains :: "string \<Rightarrow> pyval \<Rightarrow> py_exn + bool" where
  "py_contains k (PDict kvs) = Inr (map_of kvs k \<noteq> None)"
| "py_contains k (PList xs) = Inr (PStr k \<in> set xs)"
| "py_contains k (PStr s) = Inr (sublist k s)"
| "py_contains k v = Inl TypeError"

text \<open>
  \<open>for item in x\<close>: the elements of a list, the characters of a string, the keys of a
  dictionary; a \<open>TypeError\<close> on anything else.
\<close>

fun py_iter :: "pyval \<Rightarrow> py_exn + pyval list" where
  "py_iter (PList xs) = Inr xs"
| "py_iter (PStr s) = Inr (map (\<lambda>ch. PStr [ch]) s)"
| "py_iter (PDict kvs) = Inr (map (\<lambda>kv. PStr (fst kv)) kvs)"
| "py_iter v = Inl TypeError"

text \<open>\<open>d.get(k, default)\<close>: only dictionaries have the method.\<close>

fun py_get :: "pyval \<Rightarrow> string \<Rightarrow> pyval \<Rightarrow> py_exn + pyval" where
  "py_get (PDict kvs) k dflt = Inr (case map_of kvs k of None \<Rightarrow> dflt | Some v \<Rightarrow> v)"
| "py_get v k dflt = Inl AttributeError"

subsection \<open>\<open>str\<close> and \<open>repr\<close>\<close>

definition digit_char :: "nat \<Rightarrow> char" where
  "digit_char d = ''0123456789abcdef'' ! d"

fun str_nat :: "nat \<Rightarrow> string" where
  "str_nat n = (if n < 10 then [digit_char n] else str_nat (n div 10) @ [digit_char (n mod 10)])"

definition str_int :: "int \<Rightarrow> string" where
  "str_int i = (if i < 0 then CHR ''-'' # str_nat (nat (- i)) else str_nat (nat i))"

text \<open>
  \<open>repr\<close> of a string: single quotes unless the string has a single quote and no double
  quote; the quote character and the backslash are escaped, tab, newline and carriage
  return get their letter, and every other code point that is not printable is written
  \<open>\xhh\<close>. Below 256 the printable code points are 32 to 126 and 161 to 255 except 173.
\<close>

definition printable :: "char \<Rightarrow> bool" where
  "printable ch =
     (let n = of_char ch :: nat
      in (32 \<le> n \<and> n \<le> 126) \<or> (161 \<le> n \<and> n \<le> 255 \<and> n \<noteq> 173))"

definition repr_char :: "char \<Rightarrow> char \<Rightarrow> string" where
  "repr_char quote ch =
     (if ch = quote \<or> ch = CHR 0x5C then [CHR 0x5C, ch]
      else if ch = CHR 0x09 then [CHR 0x5C, CHR ''t'']
      else if ch = CHR 0x0A then [CHR 0x5C, CHR ''n'']
      else if ch = CHR 0x0D then [CHR 0x5C, CHR ''r'']
      else if printable ch then [ch]
      else [CHR 0x5C, CHR ''x'',
            digit_char ((of_char ch :: nat) div 16), digit_char ((of_char ch :: nat) mod 16)])"

definition repr_str :: "string \<Rightarrow> string" where
  "repr_str s =
     (let quote = (if CHR 0x27 \<in> set s \<and> CHR 0x22 \<notin> set s then CHR 0x22 else CHR 0x27)
      in quote # concat (map (repr_char quote) s) @ [quote])"

fun join :: "string \<Rightarrow> string list \<Rightarrow> string" where
  "join sep [] = []"
| "join sep [x] = x"
| "join sep (x # y # ys) = x @ sep @ join sep (y # ys)"

fun py_repr :: "pyval \<Rightarrow> string" where
  "py_repr PNone = ''None''"
| "py_repr (PBool b) = (if b then ''True'' else ''False'')"
| "py_repr (PInt i) = str_int i"
| "py_repr (PFloat r) = r"
| "py_repr (PStr s) = repr_str s"
| "py_repr (PList xs) = ''['' @ join '', '' (map py_repr xs) @ '']''"
| "py_repr (PDict kvs) =
     ''{'' @ join '', '' (map (\<lambda>kv. repr_str (fst kv) @ '': '' @ py_repr (snd kv)) kvs) @ ''}''"

text \<open>\<open>str(x)\<close>: a string is returned as it is; every other value prints as its \<open>repr\<close>.\<close>

fun py_str :: "pyval \<Rightarrow> string" where
  "py_str (PStr s) = s"
| "py_str v = py_repr v"

section \<open>The Transform Client (\<open>VaultTransformClient\<close>)\<close>

text \<open>
  Vault is outside the program. A call of \<open>requests.post\<close> is a step of the outside
  world: given the world and the request it either raises (connection refused, timeout)
  or yields a response, and leaves a new world. Nothing is assumed about the world, so a
  backend may answer the same request differently each time. Log lines are not modelled.
\<close>

record http_request =
  url :: string
  headers :: "(string \<times> string) list"
  json_payload :: pyval
  timeout :: int

text \<open>\<open>resp_json\<close> is the result of \<open>response.json()\<close>; \<open>None\<close> when the body does not parse.\<close>

record http_response =
  status_code :: int
  resp_text :: string
  resp_json :: "pyval option"

type_synonym 'w backend = "'w \<Rightarrow> http_request \<Rightarrow> (py_exn + http_response) \<times> 'w"

record vault_client =
  vault_url :: string
  vault_token :: string
  vault_namespace :: string
  transform_role :: string

text \<open>
  \<open>__init__\<close> reads the process environment. \<open>addr_var\<close> is the name of the variable
  holding the address: \<open>VAULT_URL\<close> in \<open>src/main.py\<close>, \<open>VAULT_ADDR\<close> in the Cloud Function.
\<close>

definition environ_get :: "(string \<rightharpoonup> string) \<Rightarrow> string \<Rightarrow> string \<Rightarrow> string" where
  "environ_get env k dflt = (case env k of None \<Rightarrow> dflt | Some v \<Rightarrow> v)"

definition client_init :: "string \<Rightarrow> (string \<rightharpoonup> string) \<Rightarrow> py_exn + vault_client" where
  "client_init addr_var env =
     (case env ''VAULT_TOKEN'' of
        None \<Rightarrow> Inl (ValueError ''VAULT_TOKEN environment variable is required'')
      | Some tok \<Rightarrow>
          if tok = [] then Inl (ValueError ''VAULT_TOKEN environment variable is required'')
          else Inr \<lparr>vault_url = environ_get env addr_var ''https://vault.example.com'',
                    vault_token = tok,
                    vault_namespace = environ_get env ''VAULT_NAMESPACE'' [],
                    transform_role = environ_get env ''VAULT_TRANSFORM_ROLE'' ''creditcard-transform''\<rparr>)"


definition cf_VaultTransformClient :: "(string \<rightharpoonup> string) \<Rightarrow> py_exn + vault_client" where
  "cf_VaultTransformClient env = client_init ''VAULT_ADDR'' env"

definition get_headers :: "vault_client \<Rightarrow> (string \<times> string) list" where
  "get_headers c =
     [(''X-Vault-Token'', vault_token c), (''Content-Type'', ''application/json'')]
     @ (if vault_namespace c \<noteq> [] then [(''X-Vault-Namespace'', vault_namespace c)] else [])"

text \<open>The request \<open>encrypt\<close> posts, and the one \<open>decrypt\<close> posts.\<close>

definition encode_request :: "vault_client \<Rightarrow> string \<Rightarrow> http_request" where
  "encode_request c plaintext =
     \<lparr>url = vault_url c @ ''/v1/transform/encode/'' @ transform_role c,
      headers = get_headers c,
      json_payload = PDict [(''value'', PStr plaintext)],
      timeout = 30\<rparr>"

definition decode_request :: "vault_client \<Rightarrow> string \<Rightarrow> http_request" where
  "decode_request c ciphertext =
     \<lparr>url = vault_url c @ ''/v1/transform/decode/'' @ transform_role c,
      headers = get_headers c,
      json_payload = PDict [(''value'', PStr ciphertext)],
      timeout = 30\<rparr>"

text \<open>
  The body of the \<open>try\<close> block of \<open>encrypt\<close>: \<open>Inl\<close> is an exception on its way to the
  \<open>except\<close> clause. \<open>result.get('data', {}).get('encoded_value')\<close> raises an
  \<open>AttributeError\<close> when \<open>result\<close>, or the value under \<open>data\<close>, is not a dictionary.
\<close>

definition encrypt_try :: "vault_client \<Rightarrow> 'w backend \<Rightarrow> 'w \<Rightarrow> string \<Rightarrow> (py_exn + pyval) \<times> 'w" where
  "encrypt_try c post w plaintext =
     (case post w (encode_request c plaintext) of
        (Inl e, w') \<Rightarrow> (Inl e, w')
      | (Inr response, w') \<Rightarrow>
          if status_code response = 200 then
            (case resp_json response of
               None \<Rightarrow> (Inl JSONDecodeError, w')
             | Some result \<Rightarrow>
                 (case py_get result ''data'' (PDict []) of
                    Inl e \<Rightarrow> (Inl e, w')
                  | Inr d \<Rightarrow> (py_get d ''encoded_value'' PNone, w')))
          else (Inr PNone, w'))"

text \<open>\<open>except Exception: return None\<close>. The result is kept as a sum, so that "does not
  raise" is a statement about the function and not a choice of type.\<close>

definition encrypt :: "vault_client \<Rightarrow> 'w backend \<Rightarrow> 'w \<Rightarrow> string \<Rightarrow> (py_exn + pyval) \<times> 'w" where
  "encrypt c post w plaintext =
     (case encrypt_try c post w plaintext of
        (Inl e, w') \<Rightarrow> (Inr PNone, w')
      | (Inr v, w') \<Rightarrow> (Inr v, w'))"

definition decrypt_try :: "vault_client \<Rightarrow> 'w backend \<Rightarrow> 'w \<Rightarrow> string \<Rightarrow> (py_exn + pyval) \<times> 'w" where
  "decrypt_try c post w ciphertext =
     (case post w (decode_request c ciphertext) of
        (Inl e, w') \<Rightarrow> (Inl e, w')
      | (Inr response, w') \<Rightarrow>
          if status_code response = 200 then
            (case resp_json response of
               None \<Rightarrow> (Inl JSONDecodeError, w')
             | Some result \<Rightarrow>
                 (case py_get result ''data'' (PDict []) of
                    Inl e \<Rightarrow> (Inl e, w')
                  | Inr d \<Rightarrow> (py_get d ''decoded_value'' PNone, w')))
          else (Inr PNone, w'))"

definition decrypt :: "vault_client \<Rightarrow> 'w backend \<Rightarrow> 'w \<Rightarrow> string \<Rightarrow> (py_exn + pyval) \<times> 'w" where
  "decrypt c post w ciphertext =
     (case decrypt_try c post w ciphertext of
        (Inl e, w') \<Rightarrow> (Inr PNone, w')
      | (Inr v, w') \<Rightarrow> (Inr v, w'))"

section \<open>The handlers\<close>

text \<open>
  An inbound request, as far as the handlers look at it: its path (\<open>None\<close> when the
  object has no \<open>path\<close> attribute) and the JSON value \<open>get_json\<close> finds in it (\<open>None\<close>
  when it finds none: the body does not parse, or the request does not declare a JSON
  content type). On such a request \<open>get_json()\<close> raises an HTTP exception, written
  \<open>BadRequest\<close> here, and \<open>get_json(silent=True)\<close> returns \<open>None\<close> instead.
\<close>

record request =
  req_path :: "string option"
  req_json :: "pyval option"

definition get_json :: "bool \<Rightarrow> request \<Rightarrow> py_exn + pyval" where
  "get_json silent r =
     (case req_json r of
        Some v \<Rightarrow> Inr v
      | None \<Rightarrow> if silent then Inr PNone else Inl BadRequest)"

text \<open>A reply of a handler: the JSON body and the HTTP status.\<close>

type_synonym reply = "pyval \<times> int"

definition error_reply :: "string \<Rightarrow> int \<Rightarrow> reply" where
  "error_reply msg status = (PDict [(''error'', PStr msg)], status)"

definition replies_reply :: "pyval list \<Rightarrow> reply" where
  "replies_reply replies = (PDict [(''replies'', PList replies)], 200)"

text \<open>
  The four handlers (\<open>encrypt_credit_card\<close> and \<open>decrypt_credit_card\<close>, in \<open>src/main.py\<close>
  and in the Cloud Function) have the same text up to the client method they call and
  the \<open>silent\<close> flag of \<open>get_json\<close>. \<open>transform\<close> is that client method, with the client
  and the backend already supplied.

  One turn of the loop body: the value appended to \<open>replies\<close>, or the exception raised.
\<close>

definition process_call ::
  "('w \<Rightarrow> string \<Rightarrow> (py_exn + pyval) \<times> 'w) \<Rightarrow> 'w \<Rightarrow> pyval \<Rightarrow> (py_exn + pyval) \<times> 'w" where
  "process_call transform w call =
     (if \<not> truthy call then (Inr PNone, w)
      else
        (case py_len call of
           Inl e \<Rightarrow> (Inl e, w)
         | Inr n \<Rightarrow>
             if n = 0 then (Inr PNone, w)
             else
               (case getitem_int call 0 of
                  Inl e \<Rightarrow> (Inl e, w)
                | Inr credit_card_number \<Rightarrow>
                    if \<not> truthy credit_card_number then (Inr PNone, w)
                    else transform w (py_str credit_card_number))))"

text \<open>\<open>for call in calls: ... replies.append(...)\<close>, stopped by the first exception.\<close>

fun process_calls ::
  "('w \<Rightarrow> string \<Rightarrow> (py_exn + pyval) \<times> 'w) \<Rightarrow> 'w \<Rightarrow> pyval list \<Rightarrow> pyval list
     \<Rightarrow> (py_exn + pyval list) \<times> 'w" where
  "process_calls transform w [] replies = (Inr replies, w)"
| "process_calls transform w (call # calls) replies =
     (case process_call transform w call of
        (Inl e, w') \<Rightarrow> (Inl e, w')
      | (Inr r, w') \<Rightarrow> process_calls transform w' calls (replies @ [r]))"

text \<open>The \<open>try\<close> block of a handler.\<close>

definition handler_try ::
  "bool \<Rightarrow> ('w \<Rightarrow> string \<Rightarrow> (py_exn + pyval) \<times> 'w) \<Rightarrow> 'w \<Rightarrow> request \<Rightarrow> (py_exn + reply) \<times> 'w" where
  "handler_try silent transform w r =
     (case get_json silent r of
        Inl e \<Rightarrow> (Inl e, w)
      | Inr request_data \<Rightarrow>
          (case (if \<not> truthy request_data then Inr True
                 else map_sum id Not (py_contains ''calls'' request_data)) of
             Inl e \<Rightarrow> (Inl e, w)
           | Inr True \<Rightarrow> (Inr (error_reply ''Invalid request format'' 400), w)
           | Inr False \<Rightarrow>
               (case getitem_str request_data ''calls'' of
                  Inl e \<Rightarrow> (Inl e, w)
                | Inr calls \<Rightarrow>
                    (case py_iter calls of
                       Inl e \<Rightarrow> (Inl e, w)
                     | Inr cs \<Rightarrow>
                         (case process_calls transform w cs [] of
                            (Inl e, w') \<Rightarrow> (Inl e, w')
                          | (Inr replies, w') \<Rightarrow> (Inr (replies_reply replies), w'))))))"

text \<open>\<open>except Exception\<close>: the generic 500.\<close>

definition handler ::
  "bool \<Rightarrow> ('w \<Rightarrow> string \<Rightarrow> (py_exn + pyval) \<times> 'w) \<Rightarrow> 'w \<Rightarrow> request \<Rightarrow> reply \<times> 'w" where
  "handler silent transform w r =
     (case handler_try silent transform w r of
        (Inl e, w') \<Rightarrow> (error_reply ''Internal server error'' 500, w')
      | (Inr rep, w') \<Rightarrow> (rep, w'))"

text \<open>\<open>src/main.py\<close>: the Flask handlers call \<open>request.get_json()\<close>.\<close>

definition encrypt_credit_card :: "vault_client \<Rightarrow> 'w backend \<Rightarrow> 'w \<Rightarrow> request \<Rightarrow> reply \<times> 'w" where
  "encrypt_credit_card c post w r = handler False (encrypt c post) w r"

definition decrypt_credit_card :: "vault_client \<Rightarrow> 'w backend \<Rightarrow> 'w \<Rightarrow> request \<Rightarrow> reply \<times> 'w" where
  "decrypt_credit_card c post w r = handler False (decrypt c post) w r"

definition health_check :: "reply" where
  "health_check = (PDict [(''status'', PStr ''healthy'')], 200)"

text \<open>\<open>src/deploy/cloud-function/main.py\<close>: the handlers call \<open>request.get_json(silent=True)\<close>.\<close>

definition cf_encrypt_credit_card :: "vault_client \<Rightarrow> 'w backend \<Rightarrow> 'w \<Rightarrow> request \<Rightarrow> reply \<times> 'w" where
  "cf_encrypt_credit_card c post w r = handler True (encrypt c post) w r"

definition cf_decrypt_credit_card :: "vault_client \<Rightarrow> 'w backend \<Rightarrow> 'w \<Rightarrow> request \<Rightarrow> reply \<times> 'w" where
  "cf_decrypt_credit_card c post w r = handler True (decrypt c post) w r"

text \<open>The entry point of the Cloud Function: its \<open>try\<close> block, then its \<open>except\<close> clause.\<close>

definition vault_transform_bigquery_try ::
  "vault_client \<Rightarrow> 'w backend \<Rightarrow> 'w \<Rightarrow> request \<Rightarrow> (py_exn + reply) \<times> 'w" where
  "vault_transform_bigquery_try c post w r =
     (case get_json True r of
        Inl e \<Rightarrow> (Inl e, w)
      | Inr request_data \<Rightarrow>
          (let path = (case req_path r of Some p \<Rightarrow> p | None \<Rightarrow> ''/'')
           in if sublist ''/encrypt'' path then
                (case cf_encrypt_credit_card c post w r of (rep, w') \<Rightarrow> (Inr rep, w'))
              else if sublist ''/decrypt'' path then
                (case cf_decrypt_credit_card c post w r of (rep, w') \<Rightarrow> (Inr rep, w'))
              else if sublist ''/health'' path then (Inr health_check, w)
              else
                (case cf_encrypt_credit_card c post w r of (rep, w') \<Rightarrow> (Inr rep, w'))))"

definition vault_transform_bigquery ::
  "vault_client \<Rightarrow> 'w backend \<Rightarrow> 'w \<Rightarrow> request \<Rightarrow> reply \<times> 'w" where
  "vault_transform_bigquery c post w r =
     (case vault_transform_bigquery_try c post w r of
        (Inl e, w') \<Rightarrow> (error_reply ''Internal server error'' 500, w')
      | (Inr rep, w') \<Rightarrow> (rep, w'))"


section \<open>Notions used to state the properties\<close>

text \<open>
  An entry of \<open>calls\<close> that the loop body gets through without an exception: a value that
  tests false (\<open>null\<close>, \<open>false\<close>, \<open>0\<close>, \<open>0.0\<close>, an empty string, list or object), a list, or
  a string. The remaining values, a number or \<open>true\<close> that tests true and a non-empty
  object, have no \<open>len\<close> or no item \<open>0\<close>.
\<close>

fun accepted :: "pyval \<Rightarrow> bool" where
  "accepted (PList xs) = True"
| "accepted (PStr s) = True"
| "accepted v = (\<not> truthy v)"

text \<open>A value of \<open>calls\<close> the loop can run over, all of whose entries are accepted.\<close>

definition accepted_calls :: "pyval \<Rightarrow> bool" where
  "accepted_calls calls = (case py_iter calls of Inl e \<Rightarrow> False | Inr cs \<Rightarrow> list_all accepted cs)"

text \<open>An entry that carries no value: it tests false, or it is a list whose first element does.\<close>

fun absent :: "pyval \<Rightarrow> bool" where
  "absent (PList (v # rest)) = (\<not> truthy v)"
| "absent call = (\<not> truthy call)"

text \<open>
  What a Vault response carries for a field, in the words of the interface: the value of
  the field under \<open>data\<close> of the JSON body of a response with status 200.
\<close>

definition field_under_data :: "http_response \<Rightarrow> string \<Rightarrow> pyval option" where
  "field_under_data response field =
     (if status_code response = 200 then
        (case resp_json response of
           Some (PDict kvs) \<Rightarrow>
             (case map_of kvs ''data'' of Some (PDict d) \<Rightarrow> map_of d field | _ \<Rightarrow> None)
         | _ \<Rightarrow> None)
      else None)"

text \<open>A client method that always returns, whatever the world and the argument.\<close>

definition returns :: "('w \<Rightarrow> string \<Rightarrow> (py_exn + pyval) \<times> 'w) \<Rightarrow> bool" where
  "returns t = (\<forall>w s. \<exists>v w'. t w s = (Inr v, w'))"

section \<open>Stub backends\<close>

definition stub_client :: vault_client where
  "stub_client =
     \<lparr>vault_url = ''http://vault:8200'', vault_token = ''test-token'',
      vault_namespace = [], transform_role = ''creditcard-transform''\<rparr>"

definition payload_value :: "http_request \<Rightarrow> string" where
  "payload_value q = (case getitem_str (json_payload q) ''value'' of Inr (PStr s) \<Rightarrow> s | _ \<Rightarrow> [])"

definition ok_response :: "string \<Rightarrow> string \<Rightarrow> http_response" where
  "ok_response field v =
     \<lparr>status_code = 200, resp_text = [],
      resp_json = Some (PDict [(''data'', PDict [(field, PStr v)])])\<rparr>"

definition wrap :: "string \<Rightarrow> string" where
  "wrap x = ''ENC('' @ x @ '')''"

definition unwrap :: "string \<Rightarrow> string" where
  "unwrap y = take (length y - 5) (drop 4 y)"

text \<open>The stub of the interface example: encode maps \<open>X\<close> to \<open>ENC(X)\<close>, decode undoes it.\<close>

definition stub_post :: "unit backend" where
  "stub_post w q =
     (if sublist ''/v1/transform/encode/'' (url q)
      then (Inr (ok_response ''encoded_value'' (wrap (payload_value q))), w)
      else (Inr (ok_response ''decoded_value'' (unwrap (payload_value q))), w))"



definition post_request :: "string \<Rightarrow> pyval \<Rightarrow> request" where
  "post_request path body = \<lparr>req_path = Some path, req_json = Some body\<rparr>"

section \<open>The client methods and one turn of the loop\<close>

lemma encrypt_eq:
  "encrypt c post w s =
     (case post w (encode_request c s) of
        (Inl e, w') \<Rightarrow> (Inr PNone, w')
      | (Inr response, w') \<Rightarrow>
          (Inr (case field_under_data response ''encoded_value'' of Some v \<Rightarrow> v | None \<Rightarrow> PNone), w'))"
proof (cases "post w (encode_request c s)")
  case (Pair out w')
  show ?thesis
  proof (cases out)
    case (Inl e)
    with Pair show ?thesis by (simp add: encrypt_def encrypt_try_def)
  next
    case (Inr response)
    show ?thesis
    proof (cases "resp_json response")
      case None
      with Pair Inr show ?thesis
        by (simp add: encrypt_def encrypt_try_def field_under_data_def)
    next
      case (Some result)
      with Pair Inr show ?thesis
        by (cases result)
           (auto simp: encrypt_def encrypt_try_def field_under_data_def
                 split: option.splits pyval.splits)
    qed
  qed
qed

lemma decrypt_eq:
  "decrypt c post w s =
     (case post w (decode_request c s) of
        (Inl e, w') \<Rightarrow> (Inr PNone, w')
      | (Inr response, w') \<Rightarrow>
          (Inr (case field_under_data response ''decoded_value'' of Some v \<Rightarrow> v | None \<Rightarrow> PNone), w'))"
proof (cases "post w (decode_request c s)")
  case (Pair out w')
  show ?thesis
  proof (cases out)
    case (Inl e)
    with Pair show ?thesis by (simp add: decrypt_def decrypt_try_def)
  next
    case (Inr response)
    show ?thesis
    proof (cases "resp_json response")
      case None
      with Pair Inr show ?thesis
        by (simp add: decrypt_def decrypt_try_def field_under_data_def)
    next
      case (Some result)
      with Pair Inr show ?thesis
        by (cases result)
           (auto simp: decrypt_def decrypt_try_def field_under_data_def
                 split: option.splits pyval.splits)
    qed
  qed
qed

lemma encrypt_returns: "\<exists>v w'. encrypt c post w s = (Inr v, w')"
  by (simp add: encrypt_eq split: prod.splits sum.splits)

lemma decrypt_returns: "\<exists>v w'. decrypt c post w s = (Inr v, w')"
  by (simp add: decrypt_eq split: prod.splits sum.splits)

lemma process_call_absent: "absent call \<Longrightarrow> process_call t w call = (Inr PNone, w)"
  by (cases call rule: absent.cases) (auto simp: process_call_def index_of_def)

lemma process_call_list:
  "truthy v \<Longrightarrow> process_call t w (PList (v # rest)) = t w (py_str v)"
  by (simp add: process_call_def index_of_def)

lemma process_call_str:
  "process_call t w (PStr (ch # rest)) = t w [ch]"
  by (simp add: process_call_def index_of_def)


section \<open>The loop over \<open>calls\<close>\<close>

lemma process_call_accepted:
  assumes "accepted call" and "returns t"
  shows "\<exists>r w'. process_call t w call = (Inr r, w')"
proof (cases "absent call")
  case True
  then show ?thesis by (simp add: process_call_absent)
next
  case False
  with assms(1) consider v rest where "call = PList (v # rest)" "truthy v"
    | ch rest where "call = PStr (ch # rest)"
    by (cases call rule: absent.cases) (auto, (metis list.exhaust)+)
  then show ?thesis
    using assms(2) by cases (simp_all add: process_call_list process_call_str returns_def)
qed


lemma process_calls_acc:
  "process_calls t w cs acc =
     (case process_calls t w cs [] of
        (Inl e, w') \<Rightarrow> (Inl e, w')
      | (Inr rs, w') \<Rightarrow> (Inr (acc @ rs), w'))"
proof (induction cs arbitrary: w acc)
  case Nil
  show ?case by simp
next
  case (Cons call cs)
  show ?case
  proof (cases "process_call t w call")
    case (Pair out w1)
    show ?thesis
    proof (cases out)
      case (Inl e)
      with Pair show ?thesis by simp
    next
      case (Inr r)
      have "process_calls t w (call # cs) acc = process_calls t w1 cs (acc @ [r])"
        using Pair Inr by simp
      also have "\<dots> = (case process_calls t w1 cs [] of
                          (Inl e, w') \<Rightarrow> (Inl e, w')
                        | (Inr rs, w') \<Rightarrow> (Inr ((acc @ [r]) @ rs), w'))"
        by (rule Cons.IH)
      finally have lhs: "process_calls t w (call # cs) acc =
          (case process_calls t w1 cs [] of
             (Inl e, w') \<Rightarrow> (Inl e, w')
           | (Inr rs, w') \<Rightarrow> (Inr (acc @ r # rs), w'))"
        by (simp split: prod.splits sum.splits)
      have "process_calls t w (call # cs) [] = process_calls t w1 cs [r]"
        using Pair Inr by simp
      also have "\<dots> = (case process_calls t w1 cs [] of
                          (Inl e, w') \<Rightarrow> (Inl e, w')
                        | (Inr rs, w') \<Rightarrow> (Inr ([r] @ rs), w'))"
        by (rule Cons.IH)
      finally have rhs: "process_calls t w (call # cs) [] =
          (case process_calls t w1 cs [] of
             (Inl e, w') \<Rightarrow> (Inl e, w')
           | (Inr rs, w') \<Rightarrow> (Inr (r # rs), w'))"
        by (simp split: prod.splits sum.splits)
      show ?thesis
        unfolding lhs rhs by (simp split: prod.splits sum.splits)
    qed
  qed
qed

lemma process_calls_snd_acc:
  "snd (process_calls t w cs acc) = snd (process_calls t w cs [])"
  by (simp add: process_calls_acc [of t w cs acc] split: prod.splits sum.splits)

lemma process_calls_Cons:
  "process_calls t w (call # cs) [] =
     (case process_call t w call of
        (Inl e, w') \<Rightarrow> (Inl e, w')
      | (Inr r, w1) \<Rightarrow>
          (case process_calls t w1 cs [] of
             (Inl e, w') \<Rightarrow> (Inl e, w')
           | (Inr rs, w') \<Rightarrow> (Inr (r # rs), w')))"
proof -
  have "\<And>w1 r. process_calls t w1 cs [r] =
          (case process_calls t w1 cs [] of
             (Inl e, w') \<Rightarrow> (Inl e, w')
           | (Inr rs, w') \<Rightarrow> (Inr (r # rs), w'))"
    using process_calls_acc [of t _ cs "[_]"] by (simp split: prod.splits sum.splits)
  then show ?thesis by (simp split: prod.splits sum.splits)
qed

lemma process_calls_append:
  "process_calls t w (xs @ ys) [] =
     (case process_calls t w xs [] of
        (Inl e, w') \<Rightarrow> (Inl e, w')
      | (Inr rs, w1) \<Rightarrow>
          (case process_calls t w1 ys [] of
             (Inl e, w') \<Rightarrow> (Inl e, w')
           | (Inr rs', w') \<Rightarrow> (Inr (rs @ rs'), w')))"
proof (induction xs arbitrary: w)
  case Nil
  show ?case by (simp split: prod.splits sum.splits)
next
  case (Cons call xs)
  show ?case
    unfolding append_Cons process_calls_Cons Cons.IH
    by (simp split: prod.splits sum.splits)
qed

lemma process_calls_length:
  "process_calls t w cs [] = (Inr rs, w') \<Longrightarrow> length rs = length cs"
proof (induction cs arbitrary: w rs)
  case Nil
  then show ?case by simp
next
  case (Cons call cs)
  from Cons.prems obtain r w1 rs' where
    "process_calls t w1 cs [] = (Inr rs', w')" and "rs = r # rs'"
    unfolding process_calls_Cons by (auto split: prod.splits sum.splits)
  with Cons.IH show ?case by simp
qed

lemma process_calls_accepted:
  assumes ret: "returns t"
  shows "list_all accepted cs \<Longrightarrow> \<exists>rs w'. process_calls t w cs [] = (Inr rs, w')"
proof (induction cs arbitrary: w)
  case Nil
  show ?case by simp
next
  case (Cons call cs)
  from Cons.prems have call: "accepted call" and rest: "list_all accepted cs" by simp_all
  have "\<exists>r w1. process_call t w call = (Inr r, w1)"
    by (rule process_call_accepted [OF call ret])
  then obtain r w1 where step: "process_call t w call = (Inr r, w1)"
    by (elim exE)
  have "\<exists>rs w'. process_calls t w1 cs [] = (Inr rs, w')"
    by (rule Cons.IH [OF rest])
  then obtain rs w' where "process_calls t w1 cs [] = (Inr rs, w')"
    by (elim exE)
  with step have "process_calls t w (call # cs) [] = (Inr (r # rs), w')"
    by (simp only: process_calls_Cons prod.case sum.case)
  then show ?case by (intro exI)
qed


lemma process_calls_nth:
  "process_calls t w cs [] = (Inr rs, w') \<Longrightarrow> i < length cs \<Longrightarrow>
     fst (process_call t (snd (process_calls t w (take i cs) [])) (cs ! i)) = Inr (rs ! i)"
proof (induction cs arbitrary: w rs i)
  case Nil
  then show ?case by simp
next
  case (Cons call cs)
  from Cons.prems(1) obtain r w1 rs' where
    step: "process_call t w call = (Inr r, w1)" and
    rest: "process_calls t w1 cs [] = (Inr rs', w')" and rs: "rs = r # rs'"
    unfolding process_calls_Cons by (auto split: prod.splits sum.splits)
  show ?case
  proof (cases i)
    case 0
    with step rs show ?thesis by simp
  next
    case (Suc j)
    with Cons.prems(2) have j: "j < length cs" by simp
    have "snd (process_calls t w (take i (call # cs)) []) = snd (process_calls t w1 (take j cs) [])"
      using Suc step by (simp add: process_calls_snd_acc [of t w1 _ "[r]"])
    with Cons.IH [OF rest j] Suc rs show ?thesis by simp
  qed
qed

section \<open>The handlers, case by case\<close>

lemma returns_encrypt: "returns (encrypt c post)"
  unfolding returns_def by (intro allI encrypt_returns)

lemma returns_decrypt: "returns (decrypt c post)"
  unfolding returns_def by (intro allI decrypt_returns)




lemma handler_calls:
  assumes "req_json r = Some (PDict kvs)" and "map_of kvs ''calls'' = Some calls"
  shows "handler silent t w r =
     (case py_iter calls of
        Inl e \<Rightarrow> (error_reply ''Internal server error'' 500, w)
      | Inr cs \<Rightarrow>
          (case process_calls t w cs [] of
             (Inl e, w') \<Rightarrow> (error_reply ''Internal server error'' 500, w')
           | (Inr rs, w') \<Rightarrow> (replies_reply rs, w')))"
proof -
  from assms(2) have "kvs \<noteq> []" by auto
  with assms show ?thesis
    by (simp add: handler_def handler_try_def get_json_def split: sum.splits prod.splits)
qed

lemma handler_accepted:
  assumes "req_json r = Some (PDict kvs)" and "map_of kvs ''calls'' = Some calls"
    and "accepted_calls calls" and "returns t"
  shows "\<exists>cs rs w'. py_iter calls = Inr cs \<and> process_calls t w cs [] = (Inr rs, w')
           \<and> handler silent t w r = (replies_reply rs, w')"
proof -
  from assms(3) obtain cs where cs: "py_iter calls = Inr cs" and acc: "list_all accepted cs"
    by (auto simp: accepted_calls_def split: sum.splits)
  have "\<exists>rs w'. process_calls t w cs [] = (Inr rs, w')"
    by (rule process_calls_accepted [OF assms(4) acc])
  then obtain rs w' where run: "process_calls t w cs [] = (Inr rs, w')"
    by (elim exE)
  have "handler silent t w r = (replies_reply rs, w')"
    by (simp add: handler_calls [OF assms(1,2)] cs run)
  with cs run show ?thesis by blast
qed


subsection \<open>The stub backend\<close>

lemma stub_post_encode [simp]:
  "stub_post w (encode_request stub_client s) = (Inr (ok_response ''encoded_value'' (wrap s)), w)"
  by (simp add: stub_post_def encode_request_def stub_client_def payload_value_def sublist_code)

lemma stub_post_decode [simp]:
  "stub_post w (decode_request stub_client s) = (Inr (ok_response ''decoded_value'' (unwrap s)), w)"
  by (simp add: stub_post_def decode_request_def stub_client_def payload_value_def sublist_code)

lemma field_ok_response [simp]: "field_under_data (ok_response field v) field = Some (PStr v)"
  by (simp add: field_under_data_def ok_response_def)

lemma stub_encrypt [simp]: "encrypt stub_client stub_post w s = (Inr (PStr (wrap s)), w)"
  by (simp add: encrypt_eq)

lemma stub_decrypt [simp]: "decrypt stub_client stub_post w s = (Inr (PStr (unwrap s)), w)"
  by (simp add: decrypt_eq)

lemma unwrap_wrap [simp]: "unwrap (wrap s) = s"
  by (simp add: unwrap_def wrap_def)

subsection \<open>More on the loop body and the stubs\<close>

lemma process_call_first:
  assumes "getitem_int call 0 = Inr v" and "truthy v"
  shows "process_call t w call = t w (py_str v)"
proof (cases call)
  case (PList xs)
  with assms(1) obtain rest where "xs = v # rest"
    by (cases xs) (auto simp: index_of_def)
  with PList assms(2) show ?thesis by (simp add: process_call_list)
next
  case (PStr s)
  with assms(1) obtain ch rest where "s = ch # rest" and "v = PStr [ch]"
    by (cases s) (auto simp: index_of_def)
  with PStr show ?thesis by (simp add: process_call_str)
qed (use assms(1) in simp_all)


subsection \<open>The four handlers as instances, and a call the loop reaches\<close>

lemma four_handlers:
  assumes "h \<in> {encrypt_credit_card c post, decrypt_credit_card c post,
                 cf_encrypt_credit_card c post, cf_decrypt_credit_card c post}"
  shows "\<exists>silent t. h = handler silent t \<and> returns t"
proof -
  from assms consider
      "h = handler False (encrypt c post)" | "h = handler False (decrypt c post)"
    | "h = handler True (encrypt c post)" | "h = handler True (decrypt c post)"
    unfolding encrypt_credit_card_def decrypt_credit_card_def
      cf_encrypt_credit_card_def cf_decrypt_credit_card_def
    by (elim insertE emptyE)
  then show ?thesis
  proof cases
    case 1
    with returns_encrypt [of c post] show ?thesis
      by (intro exI [of _ False] exI [of _ "encrypt c post"] conjI)
  next
    case 2
    with returns_decrypt [of c post] show ?thesis
      by (intro exI [of _ False] exI [of _ "decrypt c post"] conjI)
  next
    case 3
    with returns_encrypt [of c post] show ?thesis
      by (intro exI [of _ True] exI [of _ "encrypt c post"] conjI)
  next
    case 4
    with returns_decrypt [of c post] show ?thesis
      by (intro exI [of _ True] exI [of _ "decrypt c post"] conjI)
  qed
qed

lemma handler_pairs:
  assumes "(h, t) \<in> {(encrypt_credit_card c post, encrypt c post),
                      (decrypt_credit_card c post, decrypt c post),
                      (cf_encrypt_credit_card c post, encrypt c post),
                      (cf_decrypt_credit_card c post, decrypt c post)}"
  shows "\<exists>silent. h = handler silent t"
proof -
  from assms consider
      "h = handler False (encrypt c post)" "t = encrypt c post"
    | "h = handler False (decrypt c post)" "t = decrypt c post"
    | "h = handler True (encrypt c post)" "t = encrypt c post"
    | "h = handler True (decrypt c post)" "t = decrypt c post"
    unfolding encrypt_credit_card_def decrypt_credit_card_def
      cf_encrypt_credit_card_def cf_decrypt_credit_card_def
    by (elim insertE emptyE) simp_all
  then show ?thesis
  proof cases
    case 1 then show ?thesis by (intro exI [of _ False]) simp
  next
    case 2 then show ?thesis by (intro exI [of _ False]) simp
  next
    case 3 then show ?thesis by (intro exI [of _ True]) simp
  next
    case 4 then show ?thesis by (intro exI [of _ True]) simp
  qed
qed

lemma handler_relays:
  assumes "req_json r = Some (PDict kvs)"
    and "map_of kvs ''calls'' = Some (PList (pre @ call # suf))"
    and "getitem_int call 0 = Inr v" and "truthy v"
    and "process_calls t w pre [] = (Inr rs1, w1)"
    and "t w1 (py_str v) = (Inr x, w2)"
  shows "handler silent t w r =
     (case process_calls t w2 suf [] of
        (Inl e, w3) \<Rightarrow> (error_reply ''Internal server error'' 500, w3)
      | (Inr rs2, w3) \<Rightarrow> (replies_reply (rs1 @ x # rs2), w3))"
proof -
  have item: "process_call t w1 call = (Inr x, w2)"
    using assms(6) by (simp only: process_call_first [OF assms(3,4)])
  have "process_calls t w1 (call # suf) [] =
      (case process_calls t w2 suf [] of
         (Inl e, w3) \<Rightarrow> (Inl e, w3)
       | (Inr rs2, w3) \<Rightarrow> (Inr (x # rs2), w3))"
    using item by (simp only: process_calls_Cons prod.case sum.case)
  then have "process_calls t w (pre @ call # suf) [] =
      (case process_calls t w2 suf [] of
         (Inl e, w3) \<Rightarrow> (Inl e, w3)
       | (Inr rs2, w3) \<Rightarrow> (Inr (rs1 @ x # rs2), w3))"
    using assms(5)
    by (simp add: process_calls_append split: prod.splits sum.splits)
  then show ?thesis
    by (simp add: handler_calls [OF assms(1,2)] split: prod.splits sum.splits)
qed

section \<open>The claims\<close>









text \<open>
  \<^bold>\<open>C4.\<close> For every input string, \<open>encrypt\<close> (and likewise \<open>decrypt\<close>) returns, on a response
  with status 200, the value of the field \<open>encoded_value\<close> (\<open>decoded_value\<close>) under \<open>data\<close>.
  When the field or the \<open>data\<close> object is missing, when the status is not 200, and when
  \<open>requests.post\<close> or \<open>response.json()\<close> raises, it returns \<open>None\<close>. In every case it
  returns: no exception reaches the caller.
\<close>

theorem client_result_or_none:
  "encrypt c post w s =
     (case post w (encode_request c s) of
        (Inl e, w') \<Rightarrow> (Inr PNone, w')
      | (Inr response, w') \<Rightarrow>
          (Inr (case field_under_data response ''encoded_value'' of
                  Some v \<Rightarrow> v | None \<Rightarrow> PNone), w'))
   \<and> decrypt c post w s =
     (case post w (decode_request c s) of
        (Inl e, w') \<Rightarrow> (Inr PNone, w')
      | (Inr response, w') \<Rightarrow>
          (Inr (case field_under_data response ''decoded_value'' of
                  Some v \<Rightarrow> v | None \<Rightarrow> PNone), w'))
   \<and> (\<exists>v w'. encrypt c post w s = (Inr v, w'))
   \<and> (\<exists>v w'. decrypt c post w s = (Inr v, w'))"
  using encrypt_eq [of c post w s] decrypt_eq [of c post w s]
    encrypt_returns [of c post w s] decrypt_returns [of c post w s]
  by (intro conjI)

text \<open>
  \<^bold>\<open>C5.\<close> Suppose the backend answers every encode request for \<open>s\<close> with status 200 and
  \<open>encoded_value = E s\<close>, every decode request for \<open>s\<close> with status 200 and
  \<open>decoded_value = D s\<close>, and \<open>D\<close> undoes \<open>E\<close>. Then for every string \<open>x\<close> (non-empty or not)
  \<open>encrypt\<close> returns \<open>E x\<close> and \<open>decrypt\<close> of that value returns \<open>x\<close>.
\<close>

theorem round_trip:
  assumes "\<forall>s. D (E s) = s"
    and "\<forall>w s. \<exists>response w'. post w (encode_request c s) = (Inr response, w')
            \<and> field_under_data response ''encoded_value'' = Some (PStr (E s))"
    and "\<forall>w s. \<exists>response w'. post w (decode_request c s) = (Inr response, w')
            \<and> field_under_data response ''decoded_value'' = Some (PStr (D s))"
  shows "\<exists>w1 w2. encrypt c post w x = (Inr (PStr (E x)), w1)
           \<and> decrypt c post w1 (E x) = (Inr (PStr x), w2)"
proof -
  from assms(2) obtain r1 w1 where
    p1: "post w (encode_request c x) = (Inr r1, w1)" and
    f1: "field_under_data r1 ''encoded_value'' = Some (PStr (E x))"
    by blast
  from assms(3) obtain r2 w2 where
    p2: "post w1 (decode_request c (E x)) = (Inr r2, w2)" and
    f2: "field_under_data r2 ''decoded_value'' = Some (PStr (D (E x)))"
    by blast
  have "encrypt c post w x = (Inr (PStr (E x)), w1)"
    by (simp add: encrypt_eq p1 f1)
  moreover have "decrypt c post w1 (E x) = (Inr (PStr x), w2)"
    using assms(1) by (simp add: decrypt_eq p2 f2)
  ultimately show ?thesis by blast
qed

text \<open>The statement above at a concrete input.\<close>

theorem round_trip_witness:
  "encrypt stub_client stub_post () ''4111111111111111'' = (Inr (PStr ''ENC(4111111111111111)''), ())
   \<and> decrypt stub_client stub_post () ''ENC(4111111111111111)'' = (Inr (PStr ''4111111111111111''), ())"
proof -
  have inv: "\<forall>s. unwrap (wrap s) = s"
    by simp
  have enc: "\<forall>w s. \<exists>response w'. stub_post w (encode_request stub_client s) = (Inr response, w')
            \<and> field_under_data response ''encoded_value'' = Some (PStr (wrap s))"
    by simp
  have dec: "\<forall>w s. \<exists>response w'. stub_post w (decode_request stub_client s) = (Inr response, w')
            \<and> field_under_data response ''decoded_value'' = Some (PStr (unwrap s))"
    by simp
  from round_trip [OF inv enc dec, of "()" "''4111111111111111''"]
  show ?thesis by (simp add: wrap_def)
qed

text \<open>
  In the batch \<open>[[], 5]\<close> the entry at position 0 is an empty list, and the handler answers
  with the generic 500 error object, so there is no reply position 0: \<open>None\<close> is appended
  for the empty list, then \<open>len(5)\<close> raises a \<open>TypeError\<close> for the neighbour and the
  \<open>except\<close> clause of the handler drops the list.
\<close>

theorem absent_entry_beside_bad_neighbour_counterexample:
  "encrypt_credit_card stub_client stub_post ()
     (post_request ''/encrypt'' (PDict [(''calls'', PList [PList [], PInt 5])]))
   = ((PDict [(''error'', PStr ''Internal server error'')], 500), ())"
  by (simp add: encrypt_credit_card_def handler_def handler_try_def get_json_def
        post_request_def process_call_def error_reply_def)

text \<open>
  \<^bold>\<open>C6\<close>, amended. Let \<open>h\<close> be one of the four handlers. For every batch whose entries are
  each accepted (a list, a string, or a value that tests false), an entry at position
  \<open>i\<close> that is an empty list, \<open>null\<close> (or another value that tests false), or a list whose
  first element tests false yields \<open>null\<close> at position \<open>i\<close> of the replies, whatever the
  neighbouring entries of those kinds are. The turn of the loop for such an entry appends
  \<open>null\<close> and leaves the world as it was, for any client method: no call to Vault is made.
  The example of the interface holds: with the stub that maps \<open>X\<close> to \<open>ENC(X)\<close>,
  \<open>{"calls": [["4111111111111111"], [], ["4222222222222222"]]}\<close> is answered by
  \<open>{"replies": ["ENC(4111111111111111)", null, "ENC(4222222222222222)"]}\<close>.
\<close>

theorem absent_entry_null:
  assumes "h \<in> {encrypt_credit_card c post, decrypt_credit_card c post,
                 cf_encrypt_credit_card c post, cf_decrypt_credit_card c post}"
    and "req_json r = Some (PDict kvs)"
    and "map_of kvs ''calls'' = Some (PList cs)"
    and "list_all accepted cs"
    and "i < length cs"
    and "absent (cs ! i)"
  shows "(\<exists>rs w'. h w r = (replies_reply rs, w')
            \<and> length rs = length cs \<and> rs ! i = PNone)
       \<and> (\<forall>t w0. process_call t w0 (cs ! i) = (Inr PNone, w0))
       \<and> encrypt_credit_card stub_client stub_post ()
            (post_request ''/encrypt''
               (PDict [(''calls'', PList [PList [PStr ''4111111111111111''], PList [],
                                          PList [PStr ''4222222222222222'']])]))
          = ((PDict [(''replies'', PList [PStr ''ENC(4111111111111111)'', PNone,
                                          PStr ''ENC(4222222222222222)''])], 200), ())"
proof -
  from four_handlers [OF assms(1)] obtain silent t
    where h: "h = handler silent t" and t: "returns t"
    by (elim exE conjE)
  have acc: "accepted_calls (PList cs)"
    using assms(4) by (simp add: accepted_calls_def)
  from handler_accepted [OF assms(2,3) acc t, of w silent]
  obtain rs w' where run: "process_calls t w cs [] = (Inr rs, w')"
    and hr: "h w r = (replies_reply rs, w')"
    unfolding h by auto
  have len: "length rs = length cs"
    by (rule process_calls_length [OF run])
  have "Inr (rs ! i) = fst (process_call t (snd (process_calls t w (take i cs) [])) (cs ! i))"
    using process_calls_nth [OF run assms(5)] by simp
  also have "\<dots> = Inr PNone"
    by (simp add: process_call_absent [OF assms(6)])
  finally have null: "rs ! i = PNone" by simp
  have first: "\<exists>rs w'. h w r = (replies_reply rs, w')
      \<and> length rs = length cs \<and> rs ! i = PNone"
    using hr len null by blast
  have nocall: "\<forall>t w0. process_call t w0 (cs ! i) = (Inr PNone, w0)"
    by (simp add: process_call_absent [OF assms(6)])
  have example: "encrypt_credit_card stub_client stub_post ()
            (post_request ''/encrypt''
               (PDict [(''calls'', PList [PList [PStr ''4111111111111111''], PList [],
                                          PList [PStr ''4222222222222222'']])]))
          = ((PDict [(''replies'', PList [PStr ''ENC(4111111111111111)'', PNone,
                                          PStr ''ENC(4222222222222222)''])], 200), ())"
    by (simp add: encrypt_credit_card_def handler_def handler_try_def get_json_def
          post_request_def process_call_def index_of_def replies_reply_def wrap_def)
  from first nocall example show ?thesis by (intro conjI)
qed

text \<open>The statement above at a concrete input.\<close>

theorem absent_entry_null_witness:
  "list_all accepted [PList [PStr ''4111111111111111''], PList [PStr []], PNone]
   \<and> absent ([PList [PStr ''4111111111111111''], PList [PStr []], PNone] ! 1)
   \<and> (\<exists>rs w'. encrypt_credit_card stub_client stub_post ()
          (post_request ''/encrypt''
             (PDict [(''calls'', PList [PList [PStr ''4111111111111111''], PList [PStr []], PNone])]))
        = (replies_reply rs, w') \<and> length rs = 3 \<and> rs ! 1 = PNone)
   \<and> (\<exists>rs w'. cf_decrypt_credit_card stub_client stub_post ()
          (post_request ''/decrypt''
             (PDict [(''calls'', PList [PList [PStr ''4111111111111111''], PList [PStr []], PNone])]))
        = (replies_reply rs, w') \<and> length rs = 3 \<and> rs ! 2 = PNone)"
proof -
  let ?cs = "[PList [PStr ''4111111111111111''], PList [PStr []], PNone]"
  let ?kvs = "[(''calls'', PList ?cs)]"
  let ?r = "post_request ''/encrypt'' (PDict ?kvs)"
  let ?r2 = "post_request ''/decrypt'' (PDict ?kvs)"
  let ?c = stub_client and ?p = stub_post
  have h1: "encrypt_credit_card ?c ?p \<in> {encrypt_credit_card ?c ?p, decrypt_credit_card ?c ?p,
      cf_encrypt_credit_card ?c ?p, cf_decrypt_credit_card ?c ?p}"
    by simp
  have h2: "cf_decrypt_credit_card ?c ?p \<in> {encrypt_credit_card ?c ?p, decrypt_credit_card ?c ?p,
      cf_encrypt_credit_card ?c ?p, cf_decrypt_credit_card ?c ?p}"
    by simp
  have body: "req_json ?r = Some (PDict ?kvs)" and body2: "req_json ?r2 = Some (PDict ?kvs)"
    by (simp_all add: post_request_def)
  have calls: "map_of ?kvs ''calls'' = Some (PList ?cs)"
    by simp
  have acc: "list_all accepted ?cs"
    by simp
  have i1: "1 < length ?cs" and i2: "2 < length ?cs"
    by simp_all
  have ab1: "absent (?cs ! 1)" and ab2: "absent (?cs ! 2)"
    by simp_all
  from absent_entry_null [OF h1 body calls acc i1 ab1, of "()"]
  have a: "\<exists>rs w'. encrypt_credit_card ?c ?p () ?r = (replies_reply rs, w')
      \<and> length rs = 3 \<and> rs ! 1 = PNone"
    by auto
  from absent_entry_null [OF h2 body2 calls acc i2 ab2, of "()"]
  have b: "\<exists>rs w'. cf_decrypt_credit_card ?c ?p () ?r2 = (replies_reply rs, w')
      \<and> length rs = 3 \<and> rs ! 2 = PNone"
    by auto
  from acc ab1 a b show ?thesis by (intro conjI)
qed



text \<open>
  \<^bold>\<open>C8.\<close> Two request bodies that are objects with the same value under \<open>calls\<close> get the
  same response from each handler, in the same world, whatever their other fields
  (\<open>requestId\<close>, \<open>caller\<close>, \<open>sessionUser\<close>, extra keys) and whatever the request path.
\<close>

theorem only_calls_consumed:
  assumes "req_json r1 = Some (PDict kvs1)" and "req_json r2 = Some (PDict kvs2)"
    and "map_of kvs1 ''calls'' = Some calls" and "map_of kvs2 ''calls'' = Some calls"
  shows "encrypt_credit_card c post w r1 = encrypt_credit_card c post w r2
       \<and> decrypt_credit_card c post w r1 = decrypt_credit_card c post w r2
       \<and> cf_encrypt_credit_card c post w r1 = cf_encrypt_credit_card c post w r2
       \<and> cf_decrypt_credit_card c post w r1 = cf_decrypt_credit_card c post w r2"
  unfolding encrypt_credit_card_def decrypt_credit_card_def
    cf_encrypt_credit_card_def cf_decrypt_credit_card_def
  by (simp add: handler_calls [OF assms(1,3)] handler_calls [OF assms(2,4)])

text \<open>The statement above at a concrete input.\<close>

theorem only_calls_consumed_witness:
  "encrypt_credit_card stub_client stub_post ()
     (post_request ''/encrypt''
        (PDict [(''requestId'', PStr ''124ab1c''), (''caller'', PStr ''//bigquery.googleapis.com/projects/p/jobs/j''),
                (''sessionUser'', PStr ''test-user@test-company.com''),
                (''calls'', PList [PList [PStr ''4111111111111111'']])]))
   = encrypt_credit_card stub_client stub_post ()
     (post_request ''/other'' (PDict [(''calls'', PList [PList [PStr ''4111111111111111'']]), (''extra'', PInt 7)]))"
proof -
  let ?calls = "PList [PList [PStr ''4111111111111111'']]"
  let ?kvs1 = "[(''requestId'', PStr ''124ab1c''), (''caller'', PStr ''//bigquery.googleapis.com/projects/p/jobs/j''),
                (''sessionUser'', PStr ''test-user@test-company.com''), (''calls'', ?calls)]"
  let ?kvs2 = "[(''calls'', ?calls), (''extra'', PInt 7)]"
  have b1: "req_json (post_request ''/encrypt'' (PDict ?kvs1)) = Some (PDict ?kvs1)"
    by (simp add: post_request_def)
  have b2: "req_json (post_request ''/other'' (PDict ?kvs2)) = Some (PDict ?kvs2)"
    by (simp add: post_request_def)
  have c1: "map_of ?kvs1 ''calls'' = Some ?calls"
    by simp
  have c2: "map_of ?kvs2 ''calls'' = Some ?calls"
    by simp
  from only_calls_consumed [OF b1 b2 c1 c2, of stub_client stub_post "()"]
  show ?thesis by (elim conjE)
qed

text \<open>
  \<^bold>\<open>C9.\<close> For every call that has an item \<open>0\<close> which tests true (a non-empty list, or a
  non-empty string), the turn of the loop is the client method applied to \<open>str\<close> of that
  item, and the request posted to Vault carries that string as its \<open>value\<close>. In each of the
  four handlers, paired with the client method it calls: once the loop has got through
  the calls before that one, the answer of the handler carries at the call's position
  what the client method returns for \<open>str\<close> of the item, followed by the replies for the
  rest of the batch (or is the generic 500 when the rest raises). The number
  \<open>4111111111111111\<close> is sent as \<open>"4111111111111111"\<close> and \<open>true\<close> as \<open>"True"\<close>; a batch
  holding them is answered with status 200 by the Flask handler and by the Cloud Function
  handler.
\<close>

theorem first_element_coerced_with_str:
  assumes "getitem_int call 0 = Inr v" and "truthy v"
  shows "process_call (encrypt c post) w call = encrypt c post w (py_str v)
       \<and> process_call (decrypt c post) w call = decrypt c post w (py_str v)
       \<and> json_payload (encode_request c (py_str v)) = PDict [(''value'', PStr (py_str v))]
       \<and> json_payload (decode_request c (py_str v)) = PDict [(''value'', PStr (py_str v))]
       \<and> ((h, t) \<in> {(encrypt_credit_card c post, encrypt c post),
                       (decrypt_credit_card c post, decrypt c post),
                       (cf_encrypt_credit_card c post, encrypt c post),
                       (cf_decrypt_credit_card c post, decrypt c post)}
            \<and> req_json r = Some (PDict kvs)
            \<and> map_of kvs ''calls'' = Some (PList (pre @ call # suf))
            \<and> process_calls t ws pre [] = (Inr rsb, wb)
            \<and> t wb (py_str v) = (Inr x, wc)
          \<longrightarrow> h ws r =
               (case process_calls t wc suf [] of
                  (Inl e, wd) \<Rightarrow> (error_reply ''Internal server error'' 500, wd)
                | (Inr rsd, wd) \<Rightarrow> (replies_reply (rsb @ x # rsd), wd)))
       \<and> py_str (PInt 4111111111111111) = ''4111111111111111''
       \<and> py_str (PBool True) = ''True''
       \<and> encrypt_credit_card stub_client stub_post ()
            (post_request ''/encrypt''
               (PDict [(''calls'', PList [PList [PInt 4111111111111111], PList [PBool True]])]))
          = ((PDict [(''replies'', PList [PStr ''ENC(4111111111111111)'', PStr ''ENC(True)''])], 200), ())
       \<and> cf_encrypt_credit_card stub_client stub_post ()
            (post_request ''/encrypt''
               (PDict [(''calls'', PList [PList [PInt 4111111111111111], PList [PBool True]])]))
          = ((PDict [(''replies'', PList [PStr ''ENC(4111111111111111)'', PStr ''ENC(True)''])], 200), ())"
proof -
  have num: "py_str (PInt 4111111111111111) = ''4111111111111111''"
    by (simp add: str_int_def digit_char_def)
  have bool: "py_str (PBool True) = ''True''"
    by simp
  have example: "encrypt_credit_card stub_client stub_post ()
            (post_request ''/encrypt''
               (PDict [(''calls'', PList [PList [PInt 4111111111111111], PList [PBool True]])]))
          = ((PDict [(''replies'', PList [PStr ''ENC(4111111111111111)'', PStr ''ENC(True)''])], 200), ())"
    using num bool
    by (simp add: encrypt_credit_card_def handler_def handler_try_def get_json_def
          post_request_def process_call_list replies_reply_def wrap_def
          del: py_str.simps py_repr.simps)
  have cf_example: "cf_encrypt_credit_card stub_client stub_post ()
            (post_request ''/encrypt''
               (PDict [(''calls'', PList [PList [PInt 4111111111111111], PList [PBool True]])]))
          = ((PDict [(''replies'', PList [PStr ''ENC(4111111111111111)'', PStr ''ENC(True)''])], 200), ())"
    using num bool
    by (simp add: cf_encrypt_credit_card_def handler_def handler_try_def get_json_def
          post_request_def process_call_list replies_reply_def wrap_def
          del: py_str.simps py_repr.simps)
  have relay: "(h, t) \<in> {(encrypt_credit_card c post, encrypt c post),
                       (decrypt_credit_card c post, decrypt c post),
                       (cf_encrypt_credit_card c post, encrypt c post),
                       (cf_decrypt_credit_card c post, decrypt c post)}
            \<and> req_json r = Some (PDict kvs)
            \<and> map_of kvs ''calls'' = Some (PList (pre @ call # suf))
            \<and> process_calls t ws pre [] = (Inr rsb, wb)
            \<and> t wb (py_str v) = (Inr x, wc)
          \<longrightarrow> h ws r =
               (case process_calls t wc suf [] of
                  (Inl e, wd) \<Rightarrow> (error_reply ''Internal server error'' 500, wd)
                | (Inr rsd, wd) \<Rightarrow> (replies_reply (rsb @ x # rsd), wd))"
  proof (intro impI, elim conjE)
    assume pair: "(h, t) \<in> {(encrypt_credit_card c post, encrypt c post),
                       (decrypt_credit_card c post, decrypt c post),
                       (cf_encrypt_credit_card c post, encrypt c post),
                       (cf_decrypt_credit_card c post, decrypt c post)}"
      and body: "req_json r = Some (PDict kvs)"
      and calls: "map_of kvs ''calls'' = Some (PList (pre @ call # suf))"
      and before: "process_calls t ws pre [] = (Inr rsb, wb)"
      and client: "t wb (py_str v) = (Inr x, wc)"
    from handler_pairs [OF pair] obtain silent where "h = handler silent t"
      by (elim exE)
    then show "h ws r =
               (case process_calls t wc suf [] of
                  (Inl e, wd) \<Rightarrow> (error_reply ''Internal server error'' 500, wd)
                | (Inr rsd, wd) \<Rightarrow> (replies_reply (rsb @ x # rsd), wd))"
      by (simp only: handler_relays [OF body calls assms before client])
  qed
  have loop: "process_call (encrypt c post) w call = encrypt c post w (py_str v)"
      "process_call (decrypt c post) w call = decrypt c post w (py_str v)"
    by (simp_all only: process_call_first [OF assms])
  have payload: "json_payload (encode_request c (py_str v)) = PDict [(''value'', PStr (py_str v))]"
      "json_payload (decode_request c (py_str v)) = PDict [(''value'', PStr (py_str v))]"
    by (simp_all add: encode_request_def decode_request_def del: py_str.simps py_repr.simps)
  show ?thesis
    by (intro conjI) (fact loop payload relay num bool example cf_example)+
qed

text \<open>The statement above at a concrete input.\<close>

theorem first_element_coerced_with_str_witness:
  "getitem_int (PList [PInt 378282246310005]) 0 = Inr (PInt 378282246310005)
   \<and> truthy (PInt 378282246310005)
   \<and> process_call (encrypt stub_client stub_post) () (PList [PInt 378282246310005])
       = (Inr (PStr ''ENC(378282246310005)''), ())
   \<and> cf_encrypt_credit_card stub_client stub_post ()
        (post_request ''/encrypt''
           (PDict [(''calls'', PList [PList [PStr ''4111111111111111''],
                                      PList [PInt 378282246310005]])]))
       = (replies_reply [PStr ''ENC(4111111111111111)'', PStr ''ENC(378282246310005)''], ())"
proof -
  let ?c = stub_client and ?p = stub_post
  let ?call = "PList [PInt 378282246310005]"
  let ?pre = "[PList [PStr ''4111111111111111'']]"
  let ?kvs = "[(''calls'', PList (?pre @ ?call # []))]"
  let ?r = "post_request ''/encrypt'' (PDict ?kvs)"
  have g: "getitem_int ?call 0 = Inr (PInt 378282246310005)"
    by (simp add: index_of_def)
  have t: "truthy (PInt 378282246310005)"
    by simp
  have s: "py_str (PInt 378282246310005) = ''378282246310005''"
    by (simp add: str_int_def digit_char_def)
  have pair: "(cf_encrypt_credit_card ?c ?p, encrypt ?c ?p)
      \<in> {(encrypt_credit_card ?c ?p, encrypt ?c ?p), (decrypt_credit_card ?c ?p, decrypt ?c ?p),
         (cf_encrypt_credit_card ?c ?p, encrypt ?c ?p), (cf_decrypt_credit_card ?c ?p, decrypt ?c ?p)}"
    by simp
  have body: "req_json ?r = Some (PDict ?kvs)"
    by (simp add: post_request_def)
  have calls: "map_of ?kvs ''calls'' = Some (PList (?pre @ ?call # []))"
    by simp
  have before: "process_calls (encrypt ?c ?p) () ?pre [] = (Inr [PStr ''ENC(4111111111111111)''], ())"
    by (simp add: process_call_list wrap_def)
  have client: "encrypt ?c ?p () (py_str (PInt 378282246310005))
      = (Inr (PStr ''ENC(378282246310005)''), ())"
    using s by (simp add: wrap_def del: py_str.simps py_repr.simps)
  note inst = first_element_coerced_with_str [OF g t, where c = ?c and post = ?p and w = "()"
      and h = "cf_encrypt_credit_card ?c ?p" and t = "encrypt ?c ?p" and r = ?r and kvs = ?kvs
      and pre = ?pre and suf = "[]" and ws = "()" and wb = "()" and wc = "()"
      and rsb = "[PStr ''ENC(4111111111111111)'']" and x = "PStr ''ENC(378282246310005)''"]
  from inst client have a: "process_call (encrypt ?c ?p) () ?call = (Inr (PStr ''ENC(378282246310005)''), ())"
    by (elim conjE) (simp only:)
  from inst pair body calls before client
  have b: "cf_encrypt_credit_card ?c ?p () ?r
      = (replies_reply [PStr ''ENC(4111111111111111)'', PStr ''ENC(378282246310005)''], ())"
    by (elim conjE) (simp del: py_str.simps py_repr.simps)
  from g t a b show ?thesis by (intro conjI) simp_all
qed

text \<open>
  \<^bold>\<open>C10.\<close> The Cloud Function entry point routes on substrings of the path (\<open>/\<close> when the
  request has no path), tested in the order \<open>/encrypt\<close>, \<open>/decrypt\<close>, \<open>/health\<close>; a path that
  contains none of the three is handled as an encrypt request.
\<close>

theorem cloud_function_routing:
  assumes "path = (case req_path r of Some p \<Rightarrow> p | None \<Rightarrow> ''/'')"
  shows "(sublist ''/encrypt'' path
            \<longrightarrow> vault_transform_bigquery c post w r = cf_encrypt_credit_card c post w r)
       \<and> (\<not> sublist ''/encrypt'' path \<and> sublist ''/decrypt'' path
            \<longrightarrow> vault_transform_bigquery c post w r = cf_decrypt_credit_card c post w r)
       \<and> (\<not> sublist ''/encrypt'' path \<and> \<not> sublist ''/decrypt'' path \<and> sublist ''/health'' path
            \<longrightarrow> vault_transform_bigquery c post w r = (health_check, w))
       \<and> (\<not> sublist ''/encrypt'' path \<and> \<not> sublist ''/decrypt'' path \<and> \<not> sublist ''/health'' path
            \<longrightarrow> vault_transform_bigquery c post w r = cf_encrypt_credit_card c post w r)"
proof -
  have "vault_transform_bigquery c post w r =
      (if sublist ''/encrypt'' path then cf_encrypt_credit_card c post w r
       else if sublist ''/decrypt'' path then cf_decrypt_credit_card c post w r
       else if sublist ''/health'' path then (health_check, w)
       else cf_encrypt_credit_card c post w r)"
    unfolding assms
    by (cases "cf_encrypt_credit_card c post w r"; cases "cf_decrypt_credit_card c post w r";
        cases "req_json r")
       (simp_all add: vault_transform_bigquery_def vault_transform_bigquery_try_def get_json_def
          Let_def)
  then show ?thesis by simp
qed

text \<open>The statement above at a concrete input.\<close>

theorem cloud_function_routing_witness:
  "\<not> sublist ''/encrypt'' ''/transform'' \<and> \<not> sublist ''/decrypt'' ''/transform''
   \<and> \<not> sublist ''/health'' ''/transform''
   \<and> vault_transform_bigquery stub_client stub_post ()
        (post_request ''/transform'' (PDict [(''calls'', PList [PList [PStr ''4111111111111111'']])]))
      = ((PDict [(''replies'', PList [PStr ''ENC(4111111111111111)''])], 200), ())
   \<and> vault_transform_bigquery stub_client stub_post ()
        (post_request ''/decrypt/encrypt'' (PDict [(''calls'', PList [PList [PStr ''4111111111111111'']])]))
      = ((PDict [(''replies'', PList [PStr ''ENC(4111111111111111)''])], 200), ())
   \<and> vault_transform_bigquery stub_client stub_post ()
        (post_request ''/health/decrypt'' (PDict [(''calls'', PList [PList [PStr ''ENC(4111111111111111)'']])]))
      = ((PDict [(''replies'', PList [PStr ''4111111111111111''])], 200), ())
   \<and> vault_transform_bigquery stub_client stub_post ()
        (post_request ''/api/health'' (PDict [(''calls'', PList [PList [PStr ''4111111111111111'']])]))
      = ((PDict [(''status'', PStr ''healthy'')], 200), ())"
proof -
  let ?body = "PDict [(''calls'', PList [PList [PStr ''4111111111111111'']])]"
  have enc: "cf_encrypt_credit_card stub_client stub_post () (post_request p ?body)
      = ((PDict [(''replies'', PList [PStr ''ENC(4111111111111111)''])], 200), ())" for p
    by (simp add: cf_encrypt_credit_card_def handler_def handler_try_def get_json_def
          post_request_def process_call_list replies_reply_def wrap_def)
  have dec: "cf_decrypt_credit_card stub_client stub_post ()
        (post_request p (PDict [(''calls'', PList [PList [PStr ''ENC(4111111111111111)'']])]))
      = ((PDict [(''replies'', PList [PStr ''4111111111111111''])], 200), ())" for p
    by (simp add: cf_decrypt_credit_card_def handler_def handler_try_def get_json_def
          post_request_def process_call_list replies_reply_def unwrap_def)
  have none: "\<not> sublist ''/encrypt'' ''/transform'' \<and> \<not> sublist ''/decrypt'' ''/transform''
      \<and> \<not> sublist ''/health'' ''/transform''"
    by (simp add: sublist_code)
  have a: "vault_transform_bigquery stub_client stub_post () (post_request ''/transform'' ?body)
      = ((PDict [(''replies'', PList [PStr ''ENC(4111111111111111)''])], 200), ())"
    using cloud_function_routing [where path = "''/transform''" and c = stub_client
        and r = "post_request ''/transform'' ?body" and post = stub_post and w = "()"] none enc
    by (simp add: post_request_def)
  have b: "vault_transform_bigquery stub_client stub_post () (post_request ''/decrypt/encrypt'' ?body)
      = ((PDict [(''replies'', PList [PStr ''ENC(4111111111111111)''])], 200), ())"
    using cloud_function_routing [where path = "''/decrypt/encrypt''" and c = stub_client
        and r = "post_request ''/decrypt/encrypt'' ?body" and post = stub_post and w = "()"] enc
    by (simp add: post_request_def sublist_code)
  have c: "vault_transform_bigquery stub_client stub_post ()
        (post_request ''/health/decrypt'' (PDict [(''calls'', PList [PList [PStr ''ENC(4111111111111111)'']])]))
      = ((PDict [(''replies'', PList [PStr ''4111111111111111''])], 200), ())"
    using cloud_function_routing [where path = "''/health/decrypt''" and c = stub_client
        and r = "post_request ''/health/decrypt'' (PDict [(''calls'', PList [PList [PStr ''ENC(4111111111111111)'']])])"
        and post = stub_post and w = "()"] dec
    by (simp add: post_request_def sublist_code)
  have d: "vault_transform_bigquery stub_client stub_post () (post_request ''/api/health'' ?body)
      = ((PDict [(''status'', PStr ''healthy'')], 200), ())"
    using cloud_function_routing [where path = "''/api/health''" and c = stub_client
        and r = "post_request ''/api/health'' ?body" and post = stub_post and w = "()"]
    by (simp add: post_request_def sublist_code health_check_def)
  from none a b c d show ?thesis by (intro conjI) simp_all
qed

end
